theory Spec2Isabelle
  imports Main
begin

section \<open>Data model\<close>

text \<open>
  The game engine of \<^verbatim>\<open>game_logic/\<close>: \<^verbatim>\<open>board.py\<close>, \<^verbatim>\<open>pawn.py\<close>, \<^verbatim>\<open>player.py\<close> and
  \<^verbatim>\<open>game_state.py\<close>.

  Python objects are shared by reference: a \<^verbatim>\<open>Pawn\<close> lives in its owner's roster
  \<^verbatim>\<open>Player._pawns\<close> and the board's dictionary holds references to the same objects.
  The model keeps the pawns' fields in the rosters only, and a reference to a pawn is the
  pair (index of the owner in \<^verbatim>\<open>GameState.players\<close>, index of the pawn in the roster).
  \<^verbatim>\<open>Pawn._player\<close>, the back reference of a pawn to its owner, is the first component
  of that pair; a method of \<^verbatim>\<open>Pawn\<close> that reads \<^verbatim>\<open>self._player.player_id\<close> takes
  that id as its first argument.
\<close>

type_synonym pos = "int \<times> int"

type_synonym pawn_ref = "nat \<times> nat"

record pawn =
  pawn_id :: int
  position :: "pos option"
  escaped :: bool

record player =
  player_id :: int
  color :: "int \<times> int \<times> int"
  pawns :: "pawn list"

text \<open>
  \<^verbatim>\<open>Board._intersections\<close> is a dictionary with one key for every cell of the grid, the
  value \<^verbatim>\<open>None\<close> for an empty cell. Every read and write of the source is guarded by
  \<^verbatim>\<open>is_valid_position\<close>, so a cell without a key and a cell holding \<^verbatim>\<open>None\<close> are both
  \<open>None\<close> here.
\<close>

record board =
  grid_size :: int
  intersections :: "pos \<Rightarrow> pawn_ref option"

record game_state =
  players :: "player list"
  board :: board
  phase :: int
  current_player_index :: nat
  selected_pawn :: "pawn_ref option"
  winner :: "nat option"
  turn_skipped :: bool
  skipped_player_id :: "int option"
  stalemate :: bool

section \<open>Board\<close>

definition GRID_SIZE :: int where
  "GRID_SIZE = 7"

definition Board_init :: board where
  "Board_init = \<lparr>grid_size = GRID_SIZE, intersections = (\<lambda>_. None)\<rparr>"

definition is_valid_position :: "board \<Rightarrow> pos \<Rightarrow> bool" where
  "is_valid_position b p =
     (case p of (x, y) \<Rightarrow> 0 \<le> x \<and> x < grid_size b \<and> 0 \<le> y \<and> y < grid_size b)"

definition is_intersection_empty :: "board \<Rightarrow> pos \<Rightarrow> bool" where
  "is_intersection_empty b p =
     (if \<not> is_valid_position b p then False else intersections b p = None)"

definition get_pawn_at_intersection :: "board \<Rightarrow> pos \<Rightarrow> pawn_ref option" where
  "get_pawn_at_intersection b p =
     (if \<not> is_valid_position b p then None else intersections b p)"

text \<open>\<^verbatim>\<open>Board.place_pawn\<close>, \<^verbatim>\<open>Board.remove_pawn\<close> and \<^verbatim>\<open>Board.move_pawn\<close>: the result and
  the board after the call.\<close>

definition board_place_pawn :: "board \<Rightarrow> pawn_ref \<Rightarrow> pos \<Rightarrow> bool \<times> board" where
  "board_place_pawn b r p =
     (if \<not> is_valid_position b p \<or> \<not> is_intersection_empty b p then (False, b)
      else (True, b\<lparr>intersections := (intersections b)(p := Some r)\<rparr>))"

definition board_remove_pawn :: "board \<Rightarrow> pos \<Rightarrow> pawn_ref option \<times> board" where
  "board_remove_pawn b p =
     (if \<not> is_valid_position b p then (None, b)
      else (intersections b p, b\<lparr>intersections := (intersections b)(p := None)\<rparr>))"

definition board_move_pawn :: "board \<Rightarrow> pos \<Rightarrow> pos \<Rightarrow> bool \<times> board" where
  "board_move_pawn b frm to =
     (if \<not> is_valid_position b frm \<or> \<not> is_valid_position b to \<or>
         intersections b frm = None \<or> \<not> is_intersection_empty b to
      then (False, b)
      else (True, b\<lparr>intersections :=
              ((intersections b)(frm := None))(to := intersections b frm)\<rparr>))"

definition is_starting_position :: "board \<Rightarrow> pos \<Rightarrow> int \<Rightarrow> bool" where
  "is_starting_position b p plid =
     (if \<not> is_valid_position b p then False
      else case p of (x, y) \<Rightarrow>
        if plid = 1 then y = 6 \<and> 1 \<le> x \<and> x \<le> 5
        else if plid = 2 then x = 6 \<and> 1 \<le> y \<and> y \<le> 5
        else False)"

definition is_escape_position :: "board \<Rightarrow> pos \<Rightarrow> int \<Rightarrow> bool" where
  "is_escape_position b p plid =
     (if \<not> is_valid_position b p then False
      else case p of (x, y) \<Rightarrow>
        if plid = 1 then y = 0 \<and> 1 \<le> x \<and> x \<le> 5
        else if plid = 2 then x = 0 \<and> 1 \<le> y \<and> y \<le> 5
        else False)"

definition directions :: "(int \<times> int) list" where
  "directions = [(0, -1), (0, 1), (-1, 0), (1, 0)]"

definition get_adjacent_intersections :: "board \<Rightarrow> pos \<Rightarrow> pos list" where
  "get_adjacent_intersections b p =
     (if \<not> is_valid_position b p then []
      else case p of (x, y) \<Rightarrow>
        filter (is_valid_position b) (map (\<lambda>(dx, dy). (x + dx, y + dy)) directions))"

definition get_valid_moves_from_position :: "board \<Rightarrow> pos \<Rightarrow> pos list" where
  "get_valid_moves_from_position b p =
     filter (is_intersection_empty b) (get_adjacent_intersections b p)"

text \<open>\<^verbatim>\<open>range(n)\<close> over Python integers.\<close>

definition py_range :: "int \<Rightarrow> int list" where
  "py_range n = [0..n - 1]"

text \<open>\<^verbatim>\<open>clear_board\<close>: the inner loop body, the inner loop over \<open>y\<close> for one \<open>x\<close>,
  and the outer loop over \<open>x\<close>.\<close>

definition clear_cell :: "int \<Rightarrow> int \<Rightarrow> board \<Rightarrow> board" where
  "clear_cell x y b = b\<lparr>intersections := (intersections b)((x, y) := None)\<rparr>"

definition clear_column :: "int \<Rightarrow> board \<Rightarrow> board" where
  "clear_column x b = fold (clear_cell x) (py_range (grid_size b)) b"

definition clear_board :: "board \<Rightarrow> board" where
  "clear_board b = fold clear_column (py_range (grid_size b)) b"

section \<open>Pawn\<close>

definition set_position :: "pos \<Rightarrow> pawn \<Rightarrow> pawn" where
  "set_position p pw = pw\<lparr>position := Some p, escaped := False\<rparr>"

definition is_on_board :: "pawn \<Rightarrow> bool" where
  "is_on_board pw = (position pw \<noteq> None \<and> \<not> escaped pw)"

definition escape :: "pawn \<Rightarrow> pawn" where
  "escape pw = pw\<lparr>escaped := True, position := None\<rparr>"

definition is_escaped :: "pawn \<Rightarrow> bool" where
  "is_escaped pw = escaped pw"

definition get_valid_moves :: "int \<Rightarrow> pawn \<Rightarrow> board \<Rightarrow> pos list" where
  "get_valid_moves plid pw b =
     (if \<not> is_on_board pw \<or> position pw = None then []
      else case position pw of
        None \<Rightarrow> []
      | Some (x, y) \<Rightarrow>
          filter (\<lambda>(adj_x, adj_y). (plid = 1 \<and> adj_y < y) \<or> (plid = 2 \<and> adj_x < x))
                 (get_valid_moves_from_position b (x, y)))"

definition is_blocked :: "int \<Rightarrow> pawn \<Rightarrow> board \<Rightarrow> bool" where
  "is_blocked plid pw b = (length (get_valid_moves plid pw b) = 0)"

definition can_move_to :: "int \<Rightarrow> pawn \<Rightarrow> board \<Rightarrow> pos \<Rightarrow> bool" where
  "can_move_to plid pw b to =
     (if \<not> is_on_board pw \<or> position pw = None then False
      else to \<in> set (get_valid_moves plid pw b))"

text \<open>\<^verbatim>\<open>Pawn.move_to\<close>: the result, the board and the pawn after the call.\<close>

definition move_to :: "int \<Rightarrow> pawn \<Rightarrow> board \<Rightarrow> pos \<Rightarrow> bool \<times> board \<times> pawn" where
  "move_to plid pw b to =
     (if \<not> can_move_to plid pw b to then (False, b, pw)
      else case position pw of
        None \<Rightarrow> (False, b, pw)
      | Some cur \<Rightarrow>
          (let (ok, b1) = board_move_pawn b cur to in
           if ok then
             (let pw1 = set_position to pw in
              if is_escape_position b1 to plid
              then (True, snd (board_remove_pawn b1 to), escape pw1)
              else (True, b1, pw1))
           else (False, b, pw)))"

section \<open>Player\<close>

definition Player_init :: "int \<Rightarrow> int \<times> int \<times> int \<Rightarrow> player" where
  "Player_init pid col =
     \<lparr>player_id = pid, color = col,
      pawns = map (\<lambda>i. \<lparr>pawn_id = int i, position = None, escaped = False\<rparr>) [0..<7]\<rparr>"

definition get_pawns_on_board :: "player \<Rightarrow> pawn list" where
  "get_pawns_on_board p = filter is_on_board (pawns p)"

definition get_escaped_pawns :: "player \<Rightarrow> pawn list" where
  "get_escaped_pawns p = filter is_escaped (pawns p)"

definition get_unplaced_pawns :: "player \<Rightarrow> pawn list" where
  "get_unplaced_pawns p = filter (\<lambda>pw. \<not> is_on_board pw \<and> \<not> is_escaped pw) (pawns p)"

definition has_won :: "player \<Rightarrow> bool" where
  "has_won p = (length (get_escaped_pawns p) = 7)"

definition can_move_any_pawn :: "player \<Rightarrow> board \<Rightarrow> bool" where
  "can_move_any_pawn p b =
     list_ex (\<lambda>pw. get_valid_moves (player_id p) pw b \<noteq> []) (get_pawns_on_board p)"

section \<open>GameState\<close>

definition PLAYING :: int where
  "PLAYING = 0"

definition GAME_OVER :: int where
  "GAME_OVER = 1"

definition GameState_init :: game_state where
  "GameState_init =
     \<lparr>players = [Player_init 1 (0, 102, 204), Player_init 2 (204, 0, 0)],
      board = Board_init,
      phase = PLAYING,
      current_player_index = 0,
      selected_pawn = None,
      winner = None,
      turn_skipped = False,
      skipped_player_id = None,
      stalemate = False\<rparr>"

text \<open>
  \<^verbatim>\<open>self.players\<close> is built once with two players and never assigned again, and
  \<^verbatim>\<open>current_player_index\<close> is only ever set to \<open>0\<close> or to a value modulo the length of
  the list, so the reads \<open>players s ! i\<close> below are in range in every state the
  program can build; the theorems that depend on it say so in their hypotheses.
\<close>

definition get_current_player :: "game_state \<Rightarrow> player" where
  "get_current_player s = players s ! current_player_index s"

definition get_other_player :: "game_state \<Rightarrow> player" where
  "get_other_player s =
     players s ! ((current_player_index s + 1) mod length (players s))"

definition get_pawn :: "game_state \<Rightarrow> pawn_ref \<Rightarrow> pawn" where
  "get_pawn s r = pawns (players s ! fst r) ! snd r"

definition update_pawn :: "pawn_ref \<Rightarrow> (pawn \<Rightarrow> pawn) \<Rightarrow> player list \<Rightarrow> player list" where
  "update_pawn r f ps =
     ps[fst r := (ps ! fst r)\<lparr>pawns := (pawns (ps ! fst r))[snd r := f (pawns (ps ! fst r) ! snd r)]\<rparr>]"

text \<open>\<^verbatim>\<open>check_victory\<close>: the first player of the list who has won, as an index.\<close>

primrec first_won :: "nat \<Rightarrow> player list \<Rightarrow> nat option" where
  "first_won i [] = None"
| "first_won i (p # ps) = (if has_won p then Some i else first_won (Suc i) ps)"

definition check_victory :: "game_state \<Rightarrow> nat option" where
  "check_victory s = first_won 0 (players s)"

definition can_player_move :: "game_state \<Rightarrow> player \<Rightarrow> bool" where
  "can_player_move s p = can_move_any_pawn p (board s)"

text \<open>
  The \<^verbatim>\<open>while\<close> loop of \<^verbatim>\<open>switch_turn\<close>. It ends by the \<^verbatim>\<open>return\<close> inside the loop
  (\<open>Returned\<close>), or by \<^verbatim>\<open>break\<close> or a false loop condition, after which the code below
  the loop reads \<^verbatim>\<open>players_checked\<close> (\<open>Completed\<close>).
\<close>

datatype scan_exit = Returned game_state | Completed game_state nat

function skip_scan :: "game_state \<Rightarrow> nat \<Rightarrow> int set \<Rightarrow> scan_exit" where
  "skip_scan s players_checked checked_players =
     (if players_checked < length (players s) then
        if player_id (get_current_player s) \<in> checked_players
        then Returned (s\<lparr>stalemate := True, phase := GAME_OVER\<rparr>)
        else if can_player_move s (get_current_player s)
        then Completed s players_checked
        else skip_scan
               (s\<lparr>turn_skipped := True,
                  skipped_player_id := Some (player_id (get_current_player s)),
                  current_player_index :=
                    (current_player_index s + 1) mod length (players s)\<rparr>)
               (players_checked + 1)
               (insert (player_id (get_current_player s)) checked_players)
      else Completed s players_checked)"
  by pat_completeness auto
termination
  by (relation "measure (\<lambda>(s, n, c). length (players s) - n)") auto

declare skip_scan.simps [simp del]

definition switch_turn :: "game_state \<Rightarrow> (bool \<times> int option) \<times> game_state" where
  "switch_turn s =
     (if phase s = GAME_OVER then ((False, None), s)
      else
        let s1 = s\<lparr>turn_skipped := False, skipped_player_id := None, selected_pawn := None\<rparr>
        in case check_victory s1 of
             Some w \<Rightarrow> ((False, None), s1\<lparr>winner := Some w, phase := GAME_OVER\<rparr>)
           | None \<Rightarrow>
               (let s2 = s1\<lparr>current_player_index :=
                              (current_player_index s1 + 1) mod length (players s1)\<rparr>
                in if phase s2 = PLAYING then
                     (case skip_scan s2 0 {} of
                        Returned s3 \<Rightarrow> ((False, None), s3)
                      | Completed s3 n \<Rightarrow>
                          if n \<ge> length (players s3)
                          then ((False, None), s3\<lparr>stalemate := True, phase := GAME_OVER\<rparr>)
                          else ((turn_skipped s3, skipped_player_id s3), s3))
                   else ((turn_skipped s2, skipped_player_id s2), s2)))"

definition reset_game :: "game_state \<Rightarrow> game_state" where
  "reset_game s =
     s\<lparr>board := clear_board (board s),
       players := map (\<lambda>p. p\<lparr>pawns := map (\<lambda>pw. pw\<lparr>position := None, escaped := False\<rparr>)
                                            (pawns p)\<rparr>) (players s),
       phase := PLAYING,
       current_player_index := 0,
       selected_pawn := None,
       winner := None,
       turn_skipped := False,
       skipped_player_id := None,
       stalemate := False\<rparr>"

text \<open>
  The three actions end with the same lines: the turn index goes to the next player,
  then \<^verbatim>\<open>check_victory\<close> is asked and a winner ends the game.
\<close>

definition next_player_and_victory :: "game_state \<Rightarrow> game_state" where
  "next_player_and_victory s =
     (let s1 = s\<lparr>current_player_index :=
                   (current_player_index s + 1) mod length (players s)\<rparr>
      in case check_victory s1 of
           Some w \<Rightarrow> s1\<lparr>winner := Some w, phase := GAME_OVER\<rparr>
         | None \<Rightarrow> s1)"

definition place_pawn :: "game_state \<Rightarrow> pawn_ref \<Rightarrow> pos \<Rightarrow> bool \<times> game_state" where
  "place_pawn s r p =
     (if fst r \<noteq> current_player_index s then (False, s)
      else if \<not> is_starting_position (board s) p (player_id (players s ! fst r))
      then (False, s)
      else
        let (ok, b1) = board_place_pawn (board s) r p in
        if ok then
          (True, next_player_and_victory
                   (s\<lparr>board := b1, players := update_pawn r (set_position p) (players s)\<rparr>))
        else (False, s))"

definition move_pawn :: "game_state \<Rightarrow> pawn_ref \<Rightarrow> pos \<Rightarrow> bool \<times> game_state" where
  "move_pawn s r to =
     (if phase s \<noteq> PLAYING then (False, s)
      else if fst r \<noteq> current_player_index s then (False, s)
      else case position (get_pawn s r) of
        None \<Rightarrow> (False, s)
      | Some frm \<Rightarrow>
          if to \<notin> set (get_valid_moves (player_id (players s ! fst r)) (get_pawn s r) (board s))
          then (False, s)
          else
            let (ok, b1) = board_move_pawn (board s) frm to in
            if ok then
              (True, next_player_and_victory
                       (s\<lparr>board := b1, players := update_pawn r (set_position to) (players s)\<rparr>))
            else (False, s))"

definition escape_pawn :: "game_state \<Rightarrow> pawn_ref \<Rightarrow> bool \<times> game_state" where
  "escape_pawn s r =
     (if phase s \<noteq> PLAYING then (False, s)
      else if fst r \<noteq> current_player_index s then (False, s)
      else case position (get_pawn s r) of
        None \<Rightarrow> (False, s)
      | Some cur \<Rightarrow>
          if \<not> is_escape_position (board s) cur (player_id (players s ! fst r))
          then (False, s)
          else
            (True, next_player_and_victory
                     (s\<lparr>board := snd (board_remove_pawn (board s) cur),
                        players := update_pawn r escape (players s)\<rparr>)))"

section \<open>Vocabulary of the properties\<close>

text \<open>What an action that only hands the turn over leaves behind: the index of the next
  player, the skip fields and the stalemate flag untouched, and the game ended exactly
  when \<^verbatim>\<open>check_victory\<close> names a winner.\<close>

definition turn_passed_without_scan :: "game_state \<Rightarrow> game_state \<Rightarrow> bool" where
  "turn_passed_without_scan s s' =
     (current_player_index s' = (current_player_index s + 1) mod length (players s) \<and>
      turn_skipped s' = turn_skipped s \<and>
      skipped_player_id s' = skipped_player_id s \<and>
      stalemate s' = stalemate s \<and>
      (case check_victory s' of
         Some w \<Rightarrow> winner s' = Some w \<and> phase s' = GAME_OVER
       | None \<Rightarrow> winner s' = winner s \<and> phase s' = phase s))"

text \<open>The cells of the pawns that are on the board, both rosters in order.\<close>

definition on_board_positions :: "game_state \<Rightarrow> pos list" where
  "on_board_positions s =
     concat (map (\<lambda>p. List.map_filter (\<lambda>pw. if is_on_board pw then position pw else None)
                                       (pawns p)) (players s))"

text \<open>The occupancy invariant: a cell of the grid is occupied on the board exactly when
  a pawn on the board stands there, and no two pawns stand on the same cell.\<close>

definition occupancy_consistent :: "game_state \<Rightarrow> bool" where
  "occupancy_consistent s =
     ((\<forall>c. is_valid_position (board s) c \<longrightarrow>
            (intersections (board s) c \<noteq> None) = (c \<in> set (on_board_positions s))) \<and>
      distinct (on_board_positions s))"

section \<open>Example games\<close>

text \<open>Pawns and games written out, for the concrete runs below. \<open>game_with\<close> is a game in
  the playing phase with the two players of \<^verbatim>\<open>GameState.__init__\<close>, the given rosters,
  board cells and turn index.\<close>

definition unplaced_pawn :: "int \<Rightarrow> pawn" where
  "unplaced_pawn i = \<lparr>pawn_id = i, position = None, escaped = False\<rparr>"

definition pawn_on :: "int \<Rightarrow> pos \<Rightarrow> pawn" where
  "pawn_on i c = \<lparr>pawn_id = i, position = Some c, escaped = False\<rparr>"

definition escaped_pawn :: "int \<Rightarrow> pawn" where
  "escaped_pawn i = \<lparr>pawn_id = i, position = None, escaped = True\<rparr>"

definition game_with ::
  "pawn list \<Rightarrow> pawn list \<Rightarrow> (pos \<Rightarrow> pawn_ref option) \<Rightarrow> nat \<Rightarrow> game_state" where
  "game_with ps1 ps2 cells idx =
     \<lparr>players = [\<lparr>player_id = 1, color = (0, 102, 204), pawns = ps1\<rparr>,
                 \<lparr>player_id = 2, color = (204, 0, 0), pawns = ps2\<rparr>],
      board = \<lparr>grid_size = 7, intersections = cells\<rparr>,
      phase = PLAYING, current_player_index = idx, selected_pawn = None, winner = None,
      turn_skipped = False, skipped_player_id = None, stalemate = False\<rparr>"

text \<open>A new game on which \<^verbatim>\<open>switch_turn\<close> has been called once.\<close>

definition after_stalemate :: game_state where
  "after_stalemate = snd (switch_turn GameState_init)"

text \<open>A new game in which player 1 places pawn 0, then player 2 places a pawn, then
  player 1 places pawn 0 again, on another starting cell.\<close>

definition first_placement :: game_state where
  "first_placement = snd (place_pawn GameState_init (0, 0) (1, 6))"

definition second_placement :: game_state where
  "second_placement = snd (place_pawn first_placement (1, 0) (6, 1))"

definition placed_twice :: game_state where
  "placed_twice = snd (place_pawn second_placement (0, 0) (2, 6))"

text \<open>A game in which no pawn can move: player 1's pawn on \<open>(1, 1)\<close> faces player 2's
  pawn on \<open>(1, 0)\<close>, which faces player 1's pawn on \<open>(0, 0)\<close>, which faces the edge.\<close>

definition mutual_block :: game_state where
  "mutual_block =
     game_with (pawn_on 0 (1, 1) # pawn_on 1 (0, 0) # map unplaced_pawn [2, 3, 4, 5, 6])
               (pawn_on 0 (1, 0) # map unplaced_pawn [1, 2, 3, 4, 5, 6])
               [(1, 1) \<mapsto> (0, 0), (0, 0) \<mapsto> (0, 1), (1, 0) \<mapsto> (1, 0)] 0"

text \<open>Player 1's pawn 0 stands on \<open>(3, 1)\<close>, below the escape cell \<open>(3, 0)\<close>, and it
  is player 1's turn.\<close>

definition near_escape :: game_state where
  "near_escape =
     game_with (pawn_on 0 (3, 1) # map unplaced_pawn [1, 2, 3, 4, 5, 6])
               (map unplaced_pawn [0, 1, 2, 3, 4, 5, 6])
               [(3, 1) \<mapsto> (0, 0)] 0"

text \<open>Games still in the playing phase in which a player has all seven pawns escaped, as
  a test harness builds them: player 1 is done and player 2, to move, has a pawn on
  \<open>(5, 3)\<close>; player 2 is done and player 1, to move, has six pawns escaped and the
  seventh on its escape cell \<open>(1, 0)\<close>.\<close>

definition player1_done_player2_moves :: game_state where
  "player1_done_player2_moves =
     game_with (map escaped_pawn [0, 1, 2, 3, 4, 5, 6])
               (pawn_on 0 (5, 3) # map unplaced_pawn [1, 2, 3, 4, 5, 6])
               [(5, 3) \<mapsto> (1, 0)] 1"

definition player2_done_player1_last :: game_state where
  "player2_done_player1_last =
     game_with (map escaped_pawn [0, 1, 2, 3, 4, 5] @ [pawn_on 6 (1, 0)])
               (map escaped_pawn [0, 1, 2, 3, 4, 5, 6])
               [(1, 0) \<mapsto> (0, 6)] 0"

section \<open>Evaluation and helper lemmas\<close>

lemmas board_defs = is_valid_position_def is_intersection_empty_def board_place_pawn_def
  board_remove_pawn_def board_move_pawn_def is_starting_position_def is_escape_position_def
  directions_def get_adjacent_intersections_def get_valid_moves_from_position_def
  Board_init_def GRID_SIZE_def

lemmas pawn_defs = set_position_def is_on_board_def escape_def is_escaped_def
  get_valid_moves_def

lemmas fixture_defs = unplaced_pawn_def pawn_on_def escaped_pawn_def game_with_def

lemmas eval_defs = Let_def board_defs pawn_defs get_pawns_on_board_def get_escaped_pawns_def
  get_unplaced_pawns_def has_won_def can_move_any_pawn_def PLAYING_def GAME_OVER_def
  get_current_player_def get_pawn_def update_pawn_def check_victory_def can_player_move_def
  switch_turn_def next_player_and_victory_def place_pawn_def move_pawn_def escape_pawn_def
  get_pawn_at_intersection_def fixture_defs

lemma roster_indices: "[0..<7] = [0, 1, 2, 3, 4, 5, 6::nat]"
  by code_simp

lemma GameState_init_value:
  "GameState_init = game_with (map unplaced_pawn [0, 1, 2, 3, 4, 5, 6])
                              (map unplaced_pawn [0, 1, 2, 3, 4, 5, 6]) (\<lambda>_. None) 0"
  by (simp add: GameState_init_def Player_init_def Board_init_def GRID_SIZE_def roster_indices
      fixture_defs)

lemma after_stalemate_value:
  "after_stalemate =
     (game_with (map unplaced_pawn [0, 1, 2, 3, 4, 5, 6])
                (map unplaced_pawn [0, 1, 2, 3, 4, 5, 6]) (\<lambda>_. None) 1)
       \<lparr>phase := GAME_OVER, turn_skipped := True, skipped_player_id := Some 1,
        stalemate := True\<rparr>"
  by (simp add: after_stalemate_def GameState_init_value eval_defs skip_scan.simps)

lemma first_placement_value:
  "fst (place_pawn GameState_init (0, 0) (1, 6))"
  "first_placement =
     game_with (pawn_on 0 (1, 6) # map unplaced_pawn [1, 2, 3, 4, 5, 6])
               (map unplaced_pawn [0, 1, 2, 3, 4, 5, 6]) [(1, 6) \<mapsto> (0, 0)] 1"
  by (simp_all add: first_placement_def GameState_init_value eval_defs)

lemma second_placement_value:
  "fst (place_pawn first_placement (1, 0) (6, 1))"
  "second_placement =
     game_with (pawn_on 0 (1, 6) # map unplaced_pawn [1, 2, 3, 4, 5, 6])
               (pawn_on 0 (6, 1) # map unplaced_pawn [1, 2, 3, 4, 5, 6])
               [(1, 6) \<mapsto> (0, 0), (6, 1) \<mapsto> (1, 0)] 0"
  by (simp_all add: second_placement_def first_placement_value eval_defs)

lemma placed_twice_value:
  "fst (place_pawn second_placement (0, 0) (2, 6))"
  "placed_twice =
     game_with (pawn_on 0 (2, 6) # map unplaced_pawn [1, 2, 3, 4, 5, 6])
               (pawn_on 0 (6, 1) # map unplaced_pawn [1, 2, 3, 4, 5, 6])
               [(1, 6) \<mapsto> (0, 0), (6, 1) \<mapsto> (1, 0), (2, 6) \<mapsto> (0, 0)] 1"
  by (simp_all add: placed_twice_def second_placement_value eval_defs)

lemma placed_twice_positions: "on_board_positions placed_twice = [(2, 6), (6, 1)]"
  by (simp add: placed_twice_value on_board_positions_def List.map_filter_def
      is_on_board_def fixture_defs)

lemma first_placement_facts:
  "current_player_index first_placement = 1"
  "\<not> turn_skipped first_placement"
  "skipped_player_id first_placement = None"
  "phase first_placement = PLAYING"
  "can_player_move first_placement (players first_placement ! 0)"
  "\<not> can_player_move first_placement (players first_placement ! 1)"
  by (simp_all add: first_placement_value(2) fixture_defs can_player_move_def
      can_move_any_pawn_def get_pawns_on_board_def is_on_board_def get_valid_moves_def
      get_valid_moves_from_position_def get_adjacent_intersections_def directions_def
      is_valid_position_def is_intersection_empty_def)

lemma moves_from_position:
  "get_valid_moves_from_position b (x, y) =
     (if is_valid_position b (x, y)
      then filter (is_intersection_empty b) [(x, y - 1), (x, y + 1), (x - 1, y), (x + 1, y)]
      else [])"
  by (simp add: get_valid_moves_from_position_def get_adjacent_intersections_def
      directions_def is_intersection_empty_def)

lemma next_player_and_victory_fields:
  "players (next_player_and_victory s) = players s"
  "board (next_player_and_victory s) = board s"
  "current_player_index (next_player_and_victory s) =
     (current_player_index s + 1) mod length (players s)"
  "turn_skipped (next_player_and_victory s) = turn_skipped s"
  "skipped_player_id (next_player_and_victory s) = skipped_player_id s"
  "stalemate (next_player_and_victory s) = stalemate s"
  "selected_pawn (next_player_and_victory s) = selected_pawn s"
  by (simp_all add: next_player_and_victory_def Let_def split: option.split)

lemma next_player_and_victory_outcome:
  "check_victory (next_player_and_victory s) = check_victory s"
  "check_victory s = Some w \<Longrightarrow>
     winner (next_player_and_victory s) = Some w \<and> phase (next_player_and_victory s) = GAME_OVER"
  "check_victory s = None \<Longrightarrow>
     winner (next_player_and_victory s) = winner s \<and> phase (next_player_and_victory s) = phase s"
  by (simp_all add: next_player_and_victory_def Let_def check_victory_def split: option.split)

lemma length_update_pawn [simp]: "length (update_pawn r f ps) = length ps"
  by (simp add: update_pawn_def)

lemma successful_place:
  "fst (place_pawn s r p) \<Longrightarrow>
   fst r = current_player_index s \<and>
   is_starting_position (board s) p (player_id (players s ! fst r)) \<and>
   fst (board_place_pawn (board s) r p) \<and>
   snd (place_pawn s r p) =
     next_player_and_victory
       (s\<lparr>board := snd (board_place_pawn (board s) r p),
          players := update_pawn r (set_position p) (players s)\<rparr>)"
  by (auto simp add: place_pawn_def split: prod.splits if_splits)

lemma successful_move:
  "fst (move_pawn s r to) \<Longrightarrow>
   \<exists>frm. phase s = PLAYING \<and> fst r = current_player_index s \<and>
     position (get_pawn s r) = Some frm \<and>
     to \<in> set (get_valid_moves (player_id (players s ! fst r)) (get_pawn s r) (board s)) \<and>
     fst (board_move_pawn (board s) frm to) \<and>
     snd (move_pawn s r to) =
       next_player_and_victory
         (s\<lparr>board := snd (board_move_pawn (board s) frm to),
            players := update_pawn r (set_position to) (players s)\<rparr>)"
  by (auto simp add: move_pawn_def split: prod.splits if_splits option.splits)

lemma successful_escape:
  "fst (escape_pawn s r) \<Longrightarrow>
   \<exists>cur. phase s = PLAYING \<and> fst r = current_player_index s \<and>
     position (get_pawn s r) = Some cur \<and>
     is_escape_position (board s) cur (player_id (players s ! fst r)) \<and>
     snd (escape_pawn s r) =
       next_player_and_victory
         (s\<lparr>board := snd (board_remove_pawn (board s) cur),
            players := update_pawn r escape (players s)\<rparr>)"
  by (auto simp add: escape_pawn_def split: prod.splits if_splits option.splits)

lemma turn_passed_step:
  "turn_passed_without_scan s (next_player_and_victory (s\<lparr>board := b, players := update_pawn r f (players s)\<rparr>))"
  by (cases "check_victory (s\<lparr>board := b, players := update_pawn r f (players s)\<rparr>)")
     (simp_all add: turn_passed_without_scan_def next_player_and_victory_fields
      next_player_and_victory_outcome)

lemma scan_two_blocked:
  assumes len: "length (players s) = 2"
    and idx: "current_player_index s < 2"
    and b0: "\<not> can_move_any_pawn (players s ! 0) (board s)"
    and b1: "\<not> can_move_any_pawn (players s ! 1) (board s)"
  shows "(\<exists>s'. skip_scan s 0 {} = Returned s' \<and> stalemate s' \<and> phase s' = GAME_OVER \<and>
               winner s' = winner s) \<or>
         (\<exists>s'. skip_scan s 0 {} = Completed s' 2 \<and> length (players s') = 2 \<and>
               winner s' = winner s)"
proof -
  have "current_player_index s = 0 \<or> current_player_index s = 1"
    using idx by auto
  then show ?thesis
  proof
    assume i: "current_player_index s = 0"
    show ?thesis
      using len b0 b1 i
      by (simp add: skip_scan.simps get_current_player_def can_player_move_def)
  next
    assume i: "current_player_index s = 1"
    show ?thesis
      using len b0 b1 i
      by (simp add: skip_scan.simps get_current_player_def can_player_move_def)
  qed
qed

lemma switch_turn_stalemate:
  assumes ph: "phase s = PLAYING"
    and nowin: "check_victory s = None"
    and len: "length (players s) = 2"
    and idx: "current_player_index s < 2"
    and b0: "\<not> can_move_any_pawn (players s ! 0) (board s)"
    and b1: "\<not> can_move_any_pawn (players s ! 1) (board s)"
  shows "fst (switch_turn s) = (False, None) \<and>
         stalemate (snd (switch_turn s)) \<and>
         phase (snd (switch_turn s)) = GAME_OVER \<and>
         winner (snd (switch_turn s)) = winner s"
proof -
  let ?s2 = "s\<lparr>turn_skipped := False, skipped_player_id := None, selected_pawn := None,
               current_player_index := (current_player_index s + 1) mod 2\<rparr>"
  have scan: "(\<exists>s'. skip_scan ?s2 0 {} = Returned s' \<and> stalemate s' \<and> phase s' = GAME_OVER \<and>
               winner s' = winner ?s2) \<or>
         (\<exists>s'. skip_scan ?s2 0 {} = Completed s' 2 \<and> length (players s') = 2 \<and>
               winner s' = winner ?s2)"
    by (rule scan_two_blocked) (use len b0 b1 in simp_all)
  have unfold: "switch_turn s =
      (case skip_scan ?s2 0 {} of
         Returned s3 \<Rightarrow> ((False, None), s3)
       | Completed s3 n \<Rightarrow>
           if n \<ge> length (players s3)
           then ((False, None), s3\<lparr>stalemate := True, phase := GAME_OVER\<rparr>)
           else ((turn_skipped s3, skipped_player_id s3), s3))"
    using ph nowin len
    by (simp add: switch_turn_def Let_def check_victory_def PLAYING_def GAME_OVER_def)
  from scan show ?thesis
    by (auto simp add: unfold)
qed

lemma clear_cell_fold:
  "grid_size (fold (clear_cell x) ys b) = grid_size b"
  "intersections (fold (clear_cell x) ys b) c =
     (if fst c = x \<and> snd c \<in> set ys then None else intersections b c)"
  by (induction ys arbitrary: b) (auto simp add: clear_cell_def)

lemma clear_column_fold:
  "grid_size (fold clear_column xs b) = grid_size b"
  "intersections (fold clear_column xs b) c =
     (if fst c \<in> set xs \<and> snd c \<in> set (py_range (grid_size b)) then None
      else intersections b c)"
  by (induction xs arbitrary: b) (auto simp add: clear_column_def clear_cell_fold)

lemma clear_board_cells:
  "grid_size (clear_board b) = grid_size b"
  "intersections (clear_board b) c =
     (if is_valid_position b c then None else intersections b c)"
  by (auto simp add: clear_board_def clear_column_fold py_range_def is_valid_position_def
      split: prod.split)

lemma clear_board_empty:
  "is_intersection_empty (clear_board b) c = is_valid_position (clear_board b) c"
  by (simp add: is_intersection_empty_def clear_board_cells is_valid_position_def)

lemma reset_player:
  "get_unplaced_pawns (p\<lparr>pawns := map (\<lambda>pw. pw\<lparr>position := None, escaped := False\<rparr>) (pawns p)\<rparr>)
     = map (\<lambda>pw. pw\<lparr>position := None, escaped := False\<rparr>) (pawns p)"
  "get_pawns_on_board (p\<lparr>pawns := map (\<lambda>pw. pw\<lparr>position := None, escaped := False\<rparr>) (pawns p)\<rparr>) = []"
  "get_escaped_pawns (p\<lparr>pawns := map (\<lambda>pw. pw\<lparr>position := None, escaped := False\<rparr>) (pawns p)\<rparr>) = []"
  by (simp_all add: get_unplaced_pawns_def get_pawns_on_board_def get_escaped_pawns_def
      is_on_board_def is_escaped_def filter_map comp_def)

lemma reset_game_fields:
  "board (reset_game s) = clear_board (board s)"
  "players (reset_game s) =
     map (\<lambda>p. p\<lparr>pawns := map (\<lambda>pw. pw\<lparr>position := None, escaped := False\<rparr>) (pawns p)\<rparr>)
         (players s)"
  "phase (reset_game s) = PLAYING"
  "current_player_index (reset_game s) = 0"
  "selected_pawn (reset_game s) = None"
  "winner (reset_game s) = None"
  "\<not> turn_skipped (reset_game s)"
  "skipped_player_id (reset_game s) = None"
  "\<not> stalemate (reset_game s)"
  by (simp_all add: reset_game_def)

lemma reset_game_no_winner: "check_victory (reset_game s) = None"
proof -
  have "first_won i (map (\<lambda>p. p\<lparr>pawns := map (\<lambda>pw. pw\<lparr>position := None, escaped := False\<rparr>) (pawns p)\<rparr>) ps) = None"
    for i ps
    by (induction ps arbitrary: i) (simp_all add: has_won_def reset_player)
  then show ?thesis
    by (simp add: check_victory_def reset_game_fields)
qed

lemma no_destination_no_move:
  "\<forall>pw\<in>set (pawns p). get_valid_moves (player_id p) pw b = [] \<Longrightarrow>
   \<not> can_move_any_pawn p b"
  by (simp add: can_move_any_pawn_def get_pawns_on_board_def list_ex_iff)

lemma nobody_on_board_no_move:
  "get_pawns_on_board p = [] \<Longrightarrow> \<not> can_move_any_pawn p b"
  by (simp add: can_move_any_pawn_def)

lemma mutual_block_fields:
  "phase mutual_block = PLAYING"
  "winner mutual_block = None"
  "length (players mutual_block) = 2"
  "current_player_index mutual_block < 2"
  by (simp_all add: mutual_block_def game_with_def)

lemma mutual_block_no_winner: "check_victory mutual_block = None"
  by (simp add: mutual_block_def fixture_defs check_victory_def has_won_def
      get_escaped_pawns_def is_escaped_def)

lemma mutual_block_no_destination:
  "\<forall>p\<in>set (players mutual_block). \<forall>pw\<in>set (pawns p).
      get_valid_moves (player_id p) pw (board mutual_block) = []"
  by (simp add: mutual_block_def fixture_defs get_valid_moves_def is_on_board_def
      get_valid_moves_from_position_def get_adjacent_intersections_def directions_def
      is_valid_position_def is_intersection_empty_def)

lemma new_game_fields:
  "phase GameState_init = PLAYING"
  "winner GameState_init = None"
  "length (players GameState_init) = 2"
  "current_player_index GameState_init < 2"
  by (simp_all add: GameState_init_value game_with_def)

lemma new_game_pawns:
  "check_victory GameState_init = None"
  "\<forall>p\<in>set (players GameState_init). get_pawns_on_board p = []"
  "length (get_unplaced_pawns (players GameState_init ! 0)) = 7"
  "length (get_unplaced_pawns (players GameState_init ! 1)) = 7"
  by (simp_all add: GameState_init_value fixture_defs check_victory_def has_won_def
      get_escaped_pawns_def is_escaped_def get_pawns_on_board_def is_on_board_def
      get_unplaced_pawns_def)

lemma reset_game_nobody_on_board:
  "\<forall>p\<in>set (players (reset_game s)). get_pawns_on_board p = []"
  by (auto simp add: reset_game_fields reset_player)

lemma reset_placed_twice_facts:
  "phase (reset_game placed_twice) = PLAYING"
  "winner (reset_game placed_twice) = None"
  "check_victory (reset_game placed_twice) = None"
  "length (players (reset_game placed_twice)) = 2"
  "current_player_index (reset_game placed_twice) < 2"
  by (simp_all add: reset_game_fields reset_game_no_winner placed_twice_value game_with_def)

lemma valid_move_cells:
  assumes "to \<in> set (get_valid_moves plid pw b)" and "position pw = Some frm"
  shows "is_on_board pw \<and> is_valid_position b frm \<and> is_intersection_empty b to"
proof (cases frm)
  case (Pair x y)
  then show ?thesis
    using assms
    by (auto simp add: get_valid_moves_def moves_from_position split: if_splits)
qed

lemma get_pawn_update:
  "fst r < length ps \<Longrightarrow> snd r < length (pawns (ps ! fst r)) \<Longrightarrow>
   pawns (update_pawn r f ps ! fst r) ! snd r = f (pawns (ps ! fst r) ! snd r)"
  by (simp add: update_pawn_def)

lemma move_pawn_effect:
  assumes ph: "phase s = PLAYING"
    and turn: "fst r = current_player_index s"
    and owner: "fst r < length (players s)"
    and pawn: "snd r < length (pawns (players s ! fst r))"
    and dest: "to \<in> set (get_valid_moves (player_id (players s ! fst r)) (get_pawn s r) (board s))"
    and here: "position (get_pawn s r) = Some frm"
    and recorded: "intersections (board s) frm = Some r"
  shows "fst (move_pawn s r to) \<and>
         position (get_pawn (snd (move_pawn s r to)) r) = Some to \<and>
         is_on_board (get_pawn (snd (move_pawn s r to)) r) \<and>
         \<not> is_escaped (get_pawn (snd (move_pawn s r to)) r) \<and>
         get_pawn_at_intersection (board (snd (move_pawn s r to))) to = Some r \<and>
         \<not> is_intersection_empty (board (snd (move_pawn s r to))) to"
proof -
  have cells: "is_valid_position (board s) frm \<and> is_intersection_empty (board s) to"
    using valid_move_cells [OF dest here] by simp
  then have to_valid: "is_valid_position (board s) to"
    by (simp add: is_intersection_empty_def split: if_splits)
  have bm: "board_move_pawn (board s) frm to =
      (True, (board s)\<lparr>intersections :=
               ((intersections (board s))(frm := None))(to := intersections (board s) frm)\<rparr>)"
    using cells to_valid recorded by (simp add: board_move_pawn_def)
  have res: "move_pawn s r to =
      (True, next_player_and_victory
         (s\<lparr>board := (board s)\<lparr>intersections :=
               ((intersections (board s))(frm := None))(to := intersections (board s) frm)\<rparr>,
            players := update_pawn r (set_position to) (players s)\<rparr>))"
    using ph turn dest here bm by (simp add: move_pawn_def)
  have pw: "get_pawn (snd (move_pawn s r to)) r = set_position to (get_pawn s r)"
    using owner pawn
    by (simp add: res next_player_and_victory_fields get_pawn_def get_pawn_update)
  have bd: "board (snd (move_pawn s r to)) =
      (board s)\<lparr>intersections :=
               ((intersections (board s))(frm := None))(to := intersections (board s) frm)\<rparr>"
    by (simp add: res next_player_and_victory_fields)
  have ok: "fst (move_pawn s r to)"
    by (simp add: res)
  show ?thesis
    using to_valid recorded
    by (simp add: ok pw bd set_position_def is_on_board_def is_escaped_def
        get_pawn_at_intersection_def is_intersection_empty_def is_valid_position_def)
qed

lemma near_escape_facts:
  "phase near_escape = PLAYING"
  "fst ((0, 0) :: pawn_ref) = current_player_index near_escape"
  "fst ((0, 0) :: pawn_ref) < length (players near_escape)"
  "snd ((0, 0) :: pawn_ref) < length (pawns (players near_escape ! fst ((0, 0) :: pawn_ref)))"
  "position (get_pawn near_escape (0, 0)) = Some (3, 1)"
  "intersections (board near_escape) (3, 1) = Some (0, 0)"
  by (simp_all add: near_escape_def fixture_defs get_pawn_def)

lemma near_escape_cells:
  "(3, 0) \<in> set (get_valid_moves (player_id (players near_escape ! fst ((0, 0) :: pawn_ref)))
                   (get_pawn near_escape (0, 0)) (board near_escape))"
  "is_escape_position (board near_escape) (3, 0)
     (player_id (players near_escape ! fst ((0, 0) :: pawn_ref)))"
  "is_intersection_empty (board near_escape) (3, 0)"
  by (simp_all add: near_escape_def fixture_defs get_pawn_def get_valid_moves_def
      is_on_board_def get_valid_moves_from_position_def get_adjacent_intersections_def
      directions_def is_valid_position_def is_intersection_empty_def is_escape_position_def)

lemma first_won_Some:
  "first_won k ps = Some w \<Longrightarrow>
   k \<le> w \<and> w - k < length ps \<and> has_won (ps ! (w - k)) \<and> (\<forall>j < w - k. \<not> has_won (ps ! j))"
proof (induction ps arbitrary: k)
  case Nil
  then show ?case by simp
next
  case (Cons p ps)
  show ?case
  proof (cases "has_won p")
    case True
    then show ?thesis using Cons.prems by simp
  next
    case False
    then have "first_won (Suc k) ps = Some w" using Cons.prems by simp
    from Cons.IH [OF this]
    have ih: "Suc k \<le> w" "w - Suc k < length ps" "has_won (ps ! (w - Suc k))"
      "\<forall>j < w - Suc k. \<not> has_won (ps ! j)" by simp_all
    have eq: "w - k = Suc (w - Suc k)" using ih(1) by simp
    show ?thesis
      using ih False by (auto simp add: eq less_Suc_eq_0_disj)
  qed
qed

lemma first_won_exists:
  "i < length ps \<Longrightarrow> has_won (ps ! i) \<Longrightarrow> \<exists>w. first_won k ps = Some w \<and> w - k \<le> i"
proof (induction ps arbitrary: k i)
  case Nil
  then show ?case by simp
next
  case (Cons p ps)
  show ?case
  proof (cases "has_won p")
    case True
    then show ?thesis by simp
  next
    case False
    then obtain i' where i': "i = Suc i'"
      using Cons.prems by (cases i) auto
    then have "i' < length ps" "has_won (ps ! i')" using Cons.prems by simp_all
    from Cons.IH [OF this, of "Suc k"] obtain w where
      "first_won (Suc k) ps = Some w" "w - Suc k \<le> i'" by blast
    then show ?thesis using False i' by auto
  qed
qed

lemma first_won_update:
  "c < length ps \<Longrightarrow> \<not> has_won (ps ! c) \<Longrightarrow> \<not> has_won p' \<Longrightarrow>
   first_won k (ps[c := p']) = first_won k ps"
proof (induction ps arbitrary: k c)
  case Nil
  then show ?case by simp
next
  case (Cons p ps)
  then show ?case by (cases c) simp_all
qed

lemma unescaped_pawn_no_win:
  assumes "k < length (pawns p)" and "length (pawns p) = 7" and "\<not> is_escaped (pawns p ! k)"
  shows "\<not> has_won p"
proof -
  have "pawns p ! k \<in> set (pawns p)" using assms(1) by simp
  then have "length (filter is_escaped (pawns p)) < length (pawns p)"
    using assms(3) by (rule length_filter_less)
  then show ?thesis using assms(2) by (simp add: has_won_def get_escaped_pawns_def)
qed

lemma check_victory_after_move:
  assumes dest: "to \<in> set (get_valid_moves plid (get_pawn s r) b)"
    and owner: "fst r < length (players s)"
    and pawn: "snd r < 7"
    and roster: "length (pawns (players s ! fst r)) = 7"
  shows "check_victory (s\<lparr>board := b', players := update_pawn r (set_position to) (players s)\<rparr>)
           = check_victory s"
proof -
  have "is_on_board (get_pawn s r)"
    using dest by (auto simp add: get_valid_moves_def split: if_splits)
  then have "\<not> is_escaped (pawns (players s ! fst r) ! snd r)"
    by (simp add: is_on_board_def is_escaped_def get_pawn_def)
  then have before: "\<not> has_won (players s ! fst r)"
    using pawn roster by (intro unescaped_pawn_no_win [of "snd r"]) simp_all
  have after: "\<not> has_won ((players s ! fst r)
      \<lparr>pawns := (pawns (players s ! fst r))
                  [snd r := set_position to (pawns (players s ! fst r) ! snd r)]\<rparr>)"
    using pawn roster
    by (intro unescaped_pawn_no_win [of "snd r"])
       (simp_all add: set_position_def is_escaped_def)
  show ?thesis
    using first_won_update [OF owner before after]
    by (simp add: check_victory_def update_pawn_def)
qed

lemma switch_turn_victory:
  assumes "phase s = PLAYING" and "check_victory s = Some w"
  shows "switch_turn s =
    ((False, None),
     s\<lparr>turn_skipped := False, skipped_player_id := None, selected_pawn := None,
       winner := Some w, phase := GAME_OVER\<rparr>)"
  using assms
  by (simp add: switch_turn_def Let_def check_victory_def PLAYING_def GAME_OVER_def)

lemma move_pawn_victory:
  assumes win: "check_victory s = Some w"
    and ok: "fst (move_pawn s r to)"
    and owner: "fst r < length (players s)"
    and pawn: "snd r < 7"
    and roster: "length (pawns (players s ! fst r)) = 7"
  shows "winner (snd (move_pawn s r to)) = Some w \<and>
         phase (snd (move_pawn s r to)) = GAME_OVER \<and>
         current_player_index (snd (move_pawn s r to)) =
           (current_player_index s + 1) mod length (players s)"
proof -
  from successful_move [OF ok] obtain frm where
    dest: "to \<in> set (get_valid_moves (player_id (players s ! fst r)) (get_pawn s r) (board s))"
    and res: "snd (move_pawn s r to) =
       next_player_and_victory
         (s\<lparr>board := snd (board_move_pawn (board s) frm to),
            players := update_pawn r (set_position to) (players s)\<rparr>)"
    by blast
  have "check_victory (s\<lparr>board := snd (board_move_pawn (board s) frm to),
            players := update_pawn r (set_position to) (players s)\<rparr>) = Some w"
    using check_victory_after_move [OF dest owner pawn roster] win by simp
  from next_player_and_victory_outcome(2) [OF this] show ?thesis
    by (simp add: res next_player_and_victory_fields)
qed

lemma player1_done_player2_moves_facts:
  "phase player1_done_player2_moves = PLAYING"
  "(0::nat) < length (players player1_done_player2_moves)"
  "has_won (players player1_done_player2_moves ! 0)"
  "check_victory player1_done_player2_moves = Some 0"
  "current_player_index player1_done_player2_moves = 1"
  "fst ((1, 0) :: pawn_ref) = current_player_index player1_done_player2_moves"
  "fst ((1, 0) :: pawn_ref) < length (players player1_done_player2_moves)"
  "snd ((1, 0) :: pawn_ref) < length (pawns (players player1_done_player2_moves ! fst ((1, 0) :: pawn_ref)))"
  "snd ((1, 0) :: pawn_ref) < 7"
  "length (pawns (players player1_done_player2_moves ! fst ((1, 0) :: pawn_ref))) = 7"
  "position (get_pawn player1_done_player2_moves (1, 0)) = Some (5, 3)"
  "intersections (board player1_done_player2_moves) (5, 3) = Some (1, 0)"
  by (simp_all add: player1_done_player2_moves_def fixture_defs get_pawn_def check_victory_def
      has_won_def get_escaped_pawns_def is_escaped_def)

lemma player1_done_player2_moves_destination:
  "(4, 3) \<in> set (get_valid_moves
                     (player_id (players player1_done_player2_moves ! fst ((1, 0) :: pawn_ref)))
                     (get_pawn player1_done_player2_moves (1, 0))
                     (board player1_done_player2_moves))"
  by (simp add: player1_done_player2_moves_def fixture_defs get_pawn_def get_valid_moves_def
      is_on_board_def get_valid_moves_from_position_def get_adjacent_intersections_def
      directions_def is_valid_position_def is_intersection_empty_def)

lemma player1_done_player2_moves_accepted:
  "fst (move_pawn player1_done_player2_moves (1, 0) (4, 3))"
  using move_pawn_effect
          [OF player1_done_player2_moves_facts(1,6,7,8) player1_done_player2_moves_destination
              player1_done_player2_moves_facts(11,12)]
  by simp

lemma player2_done_player1_last_facts:
  "phase player2_done_player1_last = PLAYING"
  "has_won (players player2_done_player1_last ! 1)"
  "\<not> has_won (players player2_done_player1_last ! 0)"
  "check_victory player2_done_player1_last = Some 1"
  by (simp_all add: player2_done_player1_last_def fixture_defs check_victory_def has_won_def
      get_escaped_pawns_def is_escaped_def)

lemma player2_done_player1_last_escapes:
  "fst (escape_pawn player2_done_player1_last (0, 6))"
  "winner (snd (escape_pawn player2_done_player1_last (0, 6))) = Some 0"
  "phase (snd (escape_pawn player2_done_player1_last (0, 6))) = GAME_OVER"
  by (simp_all add: player2_done_player1_last_def eval_defs)

lemma first_won_update_completing:
  "c < length ps \<Longrightarrow> \<not> has_won (ps ! c) \<Longrightarrow> first_won k ps = Some w \<Longrightarrow>
   first_won k (ps[c := p']) = Some (if k + c < w \<and> has_won p' then k + c else w)"
proof (induction ps arbitrary: k c)
  case Nil
  then show ?case by simp
next
  case (Cons p ps)
  show ?case
  proof (cases c)
    case 0
    then have "first_won (Suc k) ps = Some w" using Cons.prems by simp
    then have "Suc k \<le> w" using first_won_Some by blast
    then show ?thesis using 0 Cons.prems by simp
  next
    case (Suc c')
    show ?thesis
    proof (cases "has_won p")
      case True
      then show ?thesis using Suc Cons.prems by simp
    next
      case False
      then have "first_won (Suc k) ps = Some w" using Cons.prems by simp
      moreover have "c' < length ps" "\<not> has_won (ps ! c')" using Suc Cons.prems by simp_all
      ultimately have "first_won (Suc k) (ps[c' := p']) =
          Some (if Suc k + c' < w \<and> has_won p' then Suc k + c' else w)"
        using Cons.IH by blast
      then show ?thesis using Suc False by simp
    qed
  qed
qed

lemma check_victory_after_set_position:
  assumes unescaped: "\<not> is_escaped (get_pawn s r)"
    and owner: "fst r < length (players s)"
    and pawn: "snd r < 7"
    and roster: "length (pawns (players s ! fst r)) = 7"
  shows "check_victory (s\<lparr>board := b', players := update_pawn r (set_position p) (players s)\<rparr>)
           = check_victory s"
proof -
  have "\<not> is_escaped (pawns (players s ! fst r) ! snd r)"
    using unescaped by (simp add: get_pawn_def)
  then have before: "\<not> has_won (players s ! fst r)"
    using pawn roster by (intro unescaped_pawn_no_win [of "snd r"]) simp_all
  have after: "\<not> has_won ((players s ! fst r)
      \<lparr>pawns := (pawns (players s ! fst r))
                  [snd r := set_position p (pawns (players s ! fst r) ! snd r)]\<rparr>)"
    using pawn roster
    by (intro unescaped_pawn_no_win [of "snd r"])
       (simp_all add: set_position_def is_escaped_def)
  show ?thesis
    using first_won_update [OF owner before after]
    by (simp add: check_victory_def update_pawn_def)
qed

lemma place_pawn_victory:
  assumes win: "check_victory s = Some w"
    and ok: "fst (place_pawn s r p)"
    and owner: "fst r < length (players s)"
    and pawn: "snd r < 7"
    and roster: "length (pawns (players s ! fst r)) = 7"
    and unescaped: "\<not> is_escaped (get_pawn s r)"
  shows "winner (snd (place_pawn s r p)) = Some w \<and>
         phase (snd (place_pawn s r p)) = GAME_OVER \<and>
         current_player_index (snd (place_pawn s r p)) =
           (current_player_index s + 1) mod length (players s)"
proof -
  from successful_place [OF ok] have
    res: "snd (place_pawn s r p) =
       next_player_and_victory
         (s\<lparr>board := snd (board_place_pawn (board s) r p),
            players := update_pawn r (set_position p) (players s)\<rparr>)"
    by simp
  have "check_victory (s\<lparr>board := snd (board_place_pawn (board s) r p),
            players := update_pawn r (set_position p) (players s)\<rparr>) = Some w"
    using check_victory_after_set_position [OF unescaped owner pawn roster] win by simp
  from next_player_and_victory_outcome(2) [OF this] show ?thesis
    by (simp add: res next_player_and_victory_fields)
qed

lemma escape_pawn_victory:
  assumes win: "check_victory s = Some w"
    and ok: "fst (escape_pawn s r)"
    and owner: "fst r < length (players s)"
    and pawn: "snd r < 7"
    and roster: "length (pawns (players s ! fst r)) = 7"
    and unescaped: "\<not> is_escaped (get_pawn s r)"
  shows "winner (snd (escape_pawn s r)) =
           Some (if fst r < w \<and> has_won (players (snd (escape_pawn s r)) ! fst r)
                 then fst r else w) \<and>
         phase (snd (escape_pawn s r)) = GAME_OVER \<and>
         current_player_index (snd (escape_pawn s r)) =
           (current_player_index s + 1) mod length (players s)"
proof -
  from successful_escape [OF ok] obtain cur where
    res: "snd (escape_pawn s r) =
       next_player_and_victory
         (s\<lparr>board := snd (board_remove_pawn (board s) cur),
            players := update_pawn r escape (players s)\<rparr>)"
    by blast
  let ?s0 = "s\<lparr>board := snd (board_remove_pawn (board s) cur),
               players := update_pawn r escape (players s)\<rparr>"
  have "\<not> is_escaped (pawns (players s ! fst r) ! snd r)"
    using unescaped by (simp add: get_pawn_def)
  then have before: "\<not> has_won (players s ! fst r)"
    using pawn roster by (intro unescaped_pawn_no_win [of "snd r"]) simp_all
  have same: "players (snd (escape_pawn s r)) = players ?s0"
    by (simp add: res next_player_and_victory_fields)
  have "check_victory ?s0 =
      Some (if fst r < w \<and> has_won (players ?s0 ! fst r) then fst r else w)"
    using first_won_update_completing [OF owner before, of 0 w] win owner
    by (simp add: check_victory_def update_pawn_def)
  from next_player_and_victory_outcome(2) [OF this] show ?thesis
    by (simp add: res same next_player_and_victory_fields)
qed

lemma player1_done_player2_places:
  "fst ((1, 1) :: pawn_ref) < length (players player1_done_player2_moves)"
  "snd ((1, 1) :: pawn_ref) < 7"
  "length (pawns (players player1_done_player2_moves ! fst ((1, 1) :: pawn_ref))) = 7"
  "\<not> is_escaped (get_pawn player1_done_player2_moves (1, 1))"
  "fst (place_pawn player1_done_player2_moves (1, 1) (6, 1))"
  by (simp_all add: player1_done_player2_moves_def eval_defs)

lemma player2_done_player1_last_pawn:
  "(1::nat) < length (players player2_done_player1_last)"
  "fst ((0, 6) :: pawn_ref) < length (players player2_done_player1_last)"
  "snd ((0, 6) :: pawn_ref) < 7"
  "length (pawns (players player2_done_player1_last ! fst ((0, 6) :: pawn_ref))) = 7"
  "\<not> is_escaped (get_pawn player2_done_player1_last (0, 6))"
  "is_on_board (get_pawn player2_done_player1_last (0, 6))"
  "current_player_index player2_done_player1_last = 0"
  by (simp_all add: player2_done_player1_last_def fixture_defs get_pawn_def is_escaped_def
      is_on_board_def)

section \<open>Legal destinations\<close>

text \<open>
  C6. A pawn on the board at \<open>(x, y)\<close> has at most one legal destination: for player 1
  the cell \<open>(x, y - 1)\<close>, for player 2 the cell \<open>(x - 1, y)\<close>, and it has that
  destination exactly when the cell is a valid, empty cell of the board. The lateral and
  backward neighbours are never legal, and a pawn that is not on the board (unplaced or
  escaped) has no legal destination. The pawn's own cell is a cell of the grid in every
  state the game builds; were it outside, the list would be empty.
\<close>

theorem legal_destinations_forward_only:
  "(is_on_board pw \<and> position pw = Some (x, y) \<longrightarrow>
      get_valid_moves 1 pw b =
        (if is_valid_position b (x, y) \<and> is_intersection_empty b (x, y - 1)
         then [(x, y - 1)] else []) \<and>
      get_valid_moves 2 pw b =
        (if is_valid_position b (x, y) \<and> is_intersection_empty b (x - 1, y)
         then [(x - 1, y)] else [])) \<and>
   (\<not> is_on_board pw \<longrightarrow> get_valid_moves plid pw b = [])"
  by (simp add: get_valid_moves_def moves_from_position)

theorem legal_destinations_forward_only_witness:
  "is_on_board (pawn_on 0 (3, 1)) \<and>
   get_valid_moves 1 (pawn_on 0 (3, 1)) Board_init = [(3, 0)] \<and>
   get_valid_moves 2 (pawn_on 0 (3, 1)) Board_init = [(2, 1)] \<and>
   \<not> is_on_board (escaped_pawn 0) \<and>
   get_valid_moves 1 (escaped_pawn 0) Board_init = []"
  using legal_destinations_forward_only [of "pawn_on 0 (3, 1)" 3 1 Board_init 1]
        legal_destinations_forward_only [of "escaped_pawn 0" 0 0 Board_init 1]
  by (simp add: is_on_board_def is_valid_position_def is_intersection_empty_def
      Board_init_def GRID_SIZE_def fixture_defs)

section \<open>Rejected calls\<close>

text \<open>
  C4. A call of \<^verbatim>\<open>place_pawn\<close>, \<^verbatim>\<open>move_pawn\<close> or \<^verbatim>\<open>escape_pawn\<close> that returns
  \<^verbatim>\<open>False\<close> leaves the whole game state as it was, and so does \<^verbatim>\<open>switch_turn\<close> when
  it refuses to act, which it does when the game is over. The pair \<^verbatim>\<open>(False, None)\<close>
  that \<^verbatim>\<open>switch_turn\<close> returns then is also what a turn change without a skip
  returns, so the refusal is told by the phase.
\<close>

theorem rejected_call_leaves_state_unchanged:
  "(\<not> fst (place_pawn s r p) \<longrightarrow> snd (place_pawn s r p) = s) \<and>
   (\<not> fst (move_pawn s r p) \<longrightarrow> snd (move_pawn s r p) = s) \<and>
   (\<not> fst (escape_pawn s r) \<longrightarrow> snd (escape_pawn s r) = s) \<and>
   (phase s = GAME_OVER \<longrightarrow> switch_turn s = ((False, None), s))"
  by (simp add: place_pawn_def move_pawn_def escape_pawn_def switch_turn_def
      split: prod.split option.split)

theorem rejected_call_leaves_state_unchanged_witness:
  "\<not> fst (place_pawn after_stalemate (0, 0) (1, 6)) \<and>
   snd (place_pawn after_stalemate (0, 0) (1, 6)) = after_stalemate \<and>
   \<not> fst (move_pawn after_stalemate (1, 0) (5, 1)) \<and>
   snd (move_pawn after_stalemate (1, 0) (5, 1)) = after_stalemate \<and>
   \<not> fst (escape_pawn after_stalemate (1, 0)) \<and>
   snd (escape_pawn after_stalemate (1, 0)) = after_stalemate \<and>
   phase after_stalemate = GAME_OVER \<and>
   switch_turn after_stalemate = ((False, None), after_stalemate)"
proof -
  have idx: "current_player_index after_stalemate = 1"
    and ph: "phase after_stalemate = GAME_OVER"
    by (simp_all add: after_stalemate_value game_with_def)
  have "\<not> fst (place_pawn after_stalemate (0, 0) (1, 6))"
    by (simp add: place_pawn_def idx)
  moreover have "\<not> fst (move_pawn after_stalemate (1, 0) (5, 1))"
    by (simp add: move_pawn_def ph PLAYING_def GAME_OVER_def)
  moreover have "\<not> fst (escape_pawn after_stalemate (1, 0))"
    by (simp add: escape_pawn_def ph PLAYING_def GAME_OVER_def)
  ultimately show ?thesis
    using rejected_call_leaves_state_unchanged [of after_stalemate "(0, 0)" "(1, 6)"]
          rejected_call_leaves_state_unchanged [of after_stalemate "(1, 0)" "(5, 1)"] ph
    by simp
qed

section \<open>What an action does to the turn\<close>

text \<open>
  C2, as the code has it. A successful \<^verbatim>\<open>place_pawn\<close>, \<^verbatim>\<open>move_pawn\<close> or
  \<^verbatim>\<open>escape_pawn\<close> moves the turn index to the other player and then asks
  \<^verbatim>\<open>check_victory\<close>: a winner is recorded and ends the game, otherwise winner and phase
  stay. The actions do not call \<^verbatim>\<open>switch_turn\<close>: the skip fields and the stalemate flag
  are as before the action, whoever can move.
\<close>

theorem actions_pass_turn_without_scan:
  "(fst (place_pawn s r p) \<longrightarrow> turn_passed_without_scan s (snd (place_pawn s r p))) \<and>
   (fst (move_pawn s r p) \<longrightarrow> turn_passed_without_scan s (snd (move_pawn s r p))) \<and>
   (fst (escape_pawn s r) \<longrightarrow> turn_passed_without_scan s (snd (escape_pawn s r)))"
proof (intro conjI impI)
  assume "fst (place_pawn s r p)"
  then show "turn_passed_without_scan s (snd (place_pawn s r p))"
    using successful_place [of s r p] by (simp add: turn_passed_step)
next
  assume "fst (move_pawn s r p)"
  then obtain frm where
    "snd (move_pawn s r p) =
       next_player_and_victory
         (s\<lparr>board := snd (board_move_pawn (board s) frm p),
            players := update_pawn r (set_position p) (players s)\<rparr>)"
    using successful_move [of s r p] by blast
  then show "turn_passed_without_scan s (snd (move_pawn s r p))"
    by (simp add: turn_passed_step)
next
  assume "fst (escape_pawn s r)"
  then obtain cur where
    "snd (escape_pawn s r) =
       next_player_and_victory
         (s\<lparr>board := snd (board_remove_pawn (board s) cur),
            players := update_pawn r escape (players s)\<rparr>)"
    using successful_escape [of s r] by blast
  then show "turn_passed_without_scan s (snd (escape_pawn s r))"
    by (simp add: turn_passed_step)
qed

theorem actions_pass_turn_without_scan_witness:
  "fst (place_pawn GameState_init (0, 0) (1, 6)) \<and>
   turn_passed_without_scan GameState_init (snd (place_pawn GameState_init (0, 0) (1, 6)))"
  using actions_pass_turn_without_scan [of GameState_init "(0, 0)" "(1, 6)"]
        first_placement_value(1)
  by simp

text \<open>
  The claim as the specification words it fails on the first placement of a new game:
  afterwards player 2 has no pawn that can move and player 1 has one, yet the turn is
  player 2's, and no skip is recorded.
\<close>

theorem skip_scan_after_action_counterexample:
  "fst (place_pawn GameState_init (0, 0) (1, 6)) \<and>
   \<not> can_player_move first_placement (players first_placement ! 1) \<and>
   can_player_move first_placement (players first_placement ! 0) \<and>
   current_player_index first_placement = 1 \<and>
   \<not> turn_skipped first_placement \<and>
   skipped_player_id first_placement = None \<and>
   phase first_placement = PLAYING"
  using first_placement_value(1) first_placement_facts by simp

section \<open>Placement after the end of the game\<close>

text \<open>
  C5. \<^verbatim>\<open>place_pawn\<close> does not look at the phase. In the game that is over by stalemate,
  player 2, whose turn it is, places a pawn: the call returns \<^verbatim>\<open>True\<close>, the pawn and
  the board record the cell, and the turn index moves on.
\<close>

theorem place_pawn_after_game_over:
  "phase after_stalemate = GAME_OVER \<and>
   fst (place_pawn after_stalemate (1, 0) (6, 1)) \<and>
   position (get_pawn (snd (place_pawn after_stalemate (1, 0) (6, 1))) (1, 0)) = Some (6, 1) \<and>
   get_pawn_at_intersection (board (snd (place_pawn after_stalemate (1, 0) (6, 1)))) (6, 1)
     = Some (1, 0) \<and>
   current_player_index (snd (place_pawn after_stalemate (1, 0) (6, 1))) = 0"
  by (simp add: after_stalemate_value eval_defs)

theorem place_pawn_after_game_over_witness:
  "phase after_stalemate = GAME_OVER \<and>
   current_player_index after_stalemate = 1 \<and>
   is_starting_position (board after_stalemate) (6, 1) 2 \<and>
   is_intersection_empty (board after_stalemate) (6, 1) \<and>
   fst (place_pawn after_stalemate (1, 0) (6, 1))"
proof -
  have "current_player_index after_stalemate = 1 \<and>
        is_starting_position (board after_stalemate) (6, 1) 2 \<and>
        is_intersection_empty (board after_stalemate) (6, 1)"
    by (simp add: after_stalemate_value game_with_def is_starting_position_def
        is_intersection_empty_def is_valid_position_def)
  then show ?thesis
    using place_pawn_after_game_over by simp
qed

section \<open>Board occupancy\<close>

text \<open>
  C3. \<^verbatim>\<open>place_pawn\<close> does not ask whether the pawn is already on the board. Three
  accepted placements from a new game, the third of a pawn placed before, leave the cell
  \<open>(1, 6)\<close> occupied on the board by a pawn whose own position is \<open>(2, 6)\<close>: the
  occupied cells are no longer the cells of the pawns on the board.
\<close>

theorem placing_a_placed_pawn_breaks_occupancy:
  "occupancy_consistent GameState_init \<and>
   fst (place_pawn GameState_init (0, 0) (1, 6)) \<and>
   fst (place_pawn first_placement (1, 0) (6, 1)) \<and>
   fst (place_pawn second_placement (0, 0) (2, 6)) \<and>
   get_pawn_at_intersection (board placed_twice) (1, 6) = Some (0, 0) \<and>
   position (get_pawn placed_twice (0, 0)) = Some (2, 6) \<and>
   \<not> occupancy_consistent placed_twice"
proof -
  have valid: "is_valid_position (board placed_twice) (1, 6)"
    by (simp add: placed_twice_value is_valid_position_def fixture_defs)
  have occupied: "intersections (board placed_twice) (1, 6) \<noteq> None"
    by (simp add: placed_twice_value fixture_defs)
  have absent: "(1, 6) \<notin> set (on_board_positions placed_twice)"
    by (simp add: placed_twice_positions)
  have "\<not> occupancy_consistent placed_twice"
    unfolding occupancy_consistent_def using valid occupied absent by blast
  moreover have "get_pawn_at_intersection (board placed_twice) (1, 6) = Some (0, 0)"
    by (simp add: placed_twice_value get_pawn_at_intersection_def is_valid_position_def
        fixture_defs)
  moreover have "position (get_pawn placed_twice (0, 0)) = Some (2, 6)"
    by (simp add: placed_twice_value get_pawn_def fixture_defs)
  moreover have "occupancy_consistent GameState_init"
    by (simp add: occupancy_consistent_def on_board_positions_def List.map_filter_def
        GameState_init_value is_on_board_def fixture_defs)
  ultimately show ?thesis
    using first_placement_value(1) second_placement_value(1) placed_twice_value(1) by simp
qed

theorem placing_a_placed_pawn_breaks_occupancy_witness:
  "is_valid_position (board placed_twice) (1, 6) \<and>
   intersections (board placed_twice) (1, 6) \<noteq> None \<and>
   (1, 6) \<notin> set (on_board_positions placed_twice) \<and>
   \<not> occupancy_consistent placed_twice"
proof -
  have "is_valid_position (board placed_twice) (1, 6) \<and>
        intersections (board placed_twice) (1, 6) \<noteq> None"
    by (simp add: placed_twice_value is_valid_position_def fixture_defs)
  then show ?thesis
    using placing_a_placed_pawn_breaks_occupancy placed_twice_positions by simp
qed

section \<open>Reset\<close>

text \<open>
  C9. After \<^verbatim>\<open>reset_game\<close>, whatever the state before: every cell of the grid is
  empty, each of the two players has 7 unplaced pawns, none on the board and none
  escaped (every pawn without position and with the escaped flag cleared), the phase is
  \<^verbatim>\<open>PLAYING\<close>, the turn is player 1's (index 0), there is no winner, the stalemate flag
  is false, and both skip fields and the selected pawn are cleared. The hypotheses are
  what the constructor fixes for good: two players with ids 1 and 2, seven pawns each.
\<close>

theorem reset_game_restores_initial_state:
  assumes ids: "map player_id (players s) = [1, 2]"
    and rosters: "\<forall>p\<in>set (players s). length (pawns p) = 7"
  shows "(\<forall>c. is_intersection_empty (board (reset_game s)) c =
              is_valid_position (board (reset_game s)) c) \<and>
         grid_size (board (reset_game s)) = grid_size (board s) \<and>
         map player_id (players (reset_game s)) = [1, 2] \<and>
         (\<forall>p\<in>set (players (reset_game s)).
            length (get_unplaced_pawns p) = 7 \<and> get_pawns_on_board p = [] \<and>
            get_escaped_pawns p = [] \<and>
            (\<forall>pw\<in>set (pawns p). position pw = None \<and> \<not> escaped pw)) \<and>
         phase (reset_game s) = PLAYING \<and>
         current_player_index (reset_game s) = 0 \<and>
         player_id (get_current_player (reset_game s)) = 1 \<and>
         winner (reset_game s) = None \<and>
         \<not> stalemate (reset_game s) \<and>
         \<not> turn_skipped (reset_game s) \<and>
         skipped_player_id (reset_game s) = None \<and>
         selected_pawn (reset_game s) = None"
proof -
  have cells: "\<forall>c. is_intersection_empty (board (reset_game s)) c =
                   is_valid_position (board (reset_game s)) c"
    by (simp add: reset_game_fields clear_board_empty)
  have size: "grid_size (board (reset_game s)) = grid_size (board s)"
    by (simp add: reset_game_fields clear_board_cells)
  have ids': "map player_id (players (reset_game s)) = [1, 2]"
    using ids by (simp add: reset_game_fields comp_def)
  have pawns': "\<forall>p\<in>set (players (reset_game s)).
            length (get_unplaced_pawns p) = 7 \<and> get_pawns_on_board p = [] \<and>
            get_escaped_pawns p = [] \<and>
            (\<forall>pw\<in>set (pawns p). position pw = None \<and> \<not> escaped pw)"
    using rosters by (auto simp add: reset_game_fields reset_player)
  have "length (players (reset_game s)) = 2"
    using ids' by (metis length_map length_Cons list.size(3) numeral_2_eq_2)
  then have "player_id (players (reset_game s) ! 0) = map player_id (players (reset_game s)) ! 0"
    by simp
  then have first: "player_id (get_current_player (reset_game s)) = 1"
    by (simp add: ids' get_current_player_def reset_game_fields(4))
  show ?thesis
    using cells size ids' pawns' first by (simp add: reset_game_fields)
qed

theorem reset_game_restores_initial_state_witness:
  "map player_id (players placed_twice) = [1, 2] \<and>
   \<not> is_intersection_empty (board placed_twice) (1, 6) \<and>
   is_intersection_empty (board (reset_game placed_twice)) (1, 6) \<and>
   length (get_unplaced_pawns (players (reset_game placed_twice) ! 0)) = 7 \<and>
   length (get_unplaced_pawns (players (reset_game placed_twice) ! 1)) = 7 \<and>
   phase (reset_game placed_twice) = PLAYING \<and>
   current_player_index (reset_game placed_twice) = 0"
proof -
  have ids: "map player_id (players placed_twice) = [1, 2]"
    by (simp add: placed_twice_value fixture_defs)
  have rosters: "\<forall>p\<in>set (players placed_twice). length (pawns p) = 7"
    by (simp add: placed_twice_value fixture_defs)
  have occupied: "\<not> is_intersection_empty (board placed_twice) (1, 6)"
    by (simp add: placed_twice_value fixture_defs is_intersection_empty_def)
  have valid: "is_valid_position (board (reset_game placed_twice)) (1, 6)"
    by (simp add: reset_game_fields clear_board_cells is_valid_position_def
        placed_twice_value fixture_defs)
  have members: "players (reset_game placed_twice) ! 0 \<in> set (players (reset_game placed_twice))"
    "players (reset_game placed_twice) ! 1 \<in> set (players (reset_game placed_twice))"
    by (simp_all add: reset_game_fields placed_twice_value game_with_def)
  show ?thesis
    using reset_game_restores_initial_state [OF ids rosters] ids occupied valid members
    by simp
qed

section \<open>Stalemate\<close>

text \<open>
  C7. In a game that is being played and that nobody has won, if no pawn of either
  player has a legal destination, \<^verbatim>\<open>switch_turn\<close> sets the stalemate flag, ends the
  game and leaves the winner as it was, that is none.
\<close>

theorem switch_turn_declares_stalemate:
  assumes "phase s = PLAYING"
    and "check_victory s = None"
    and "length (players s) = 2"
    and "current_player_index s < 2"
    and "\<forall>p\<in>set (players s). \<forall>pw\<in>set (pawns p).
           get_valid_moves (player_id p) pw (board s) = []"
  shows "stalemate (snd (switch_turn s)) \<and>
         phase (snd (switch_turn s)) = GAME_OVER \<and>
         winner (snd (switch_turn s)) = winner s"
proof -
  have "players s ! 0 \<in> set (players s)" and "players s ! 1 \<in> set (players s)"
    using assms(3) by simp_all
  then have "\<not> can_move_any_pawn (players s ! 0) (board s)"
    and "\<not> can_move_any_pawn (players s ! 1) (board s)"
    using assms(5) by (simp_all add: no_destination_no_move)
  then show ?thesis
    using switch_turn_stalemate [of s] assms(1-4) by simp
qed

theorem switch_turn_declares_stalemate_witness:
  "phase mutual_block = PLAYING \<and>
   check_victory mutual_block = None \<and>
   length (players mutual_block) = 2 \<and>
   current_player_index mutual_block < 2 \<and>
   stalemate (snd (switch_turn mutual_block)) \<and>
   phase (snd (switch_turn mutual_block)) = GAME_OVER \<and>
   winner (snd (switch_turn mutual_block)) = None"
  using switch_turn_declares_stalemate [of mutual_block] mutual_block_fields
        mutual_block_no_winner mutual_block_no_destination
  by simp

text \<open>
  C10. In a game that is being played and that nobody has won, if neither player has a
  pawn on the board, \<^verbatim>\<open>switch_turn\<close> declares a stalemate: the flag is set, the game
  is over and there is no winner. So it is in a new game and after \<^verbatim>\<open>reset_game\<close>,
  although both players hold seven pawns they could place.
\<close>

theorem switch_turn_on_empty_board_is_stalemate:
  assumes "phase s = PLAYING"
    and "check_victory s = None"
    and "length (players s) = 2"
    and "current_player_index s < 2"
    and "\<forall>p\<in>set (players s). get_pawns_on_board p = []"
  shows "stalemate (snd (switch_turn s)) \<and>
         phase (snd (switch_turn s)) = GAME_OVER \<and>
         winner (snd (switch_turn s)) = winner s"
proof -
  have "players s ! 0 \<in> set (players s)" and "players s ! 1 \<in> set (players s)"
    using assms(3) by simp_all
  then have "\<not> can_move_any_pawn (players s ! 0) (board s)"
    and "\<not> can_move_any_pawn (players s ! 1) (board s)"
    using assms(5) by (simp_all add: nobody_on_board_no_move)
  then show ?thesis
    using switch_turn_stalemate [of s] assms(1-4) by simp
qed

theorem switch_turn_on_empty_board_is_stalemate_witness:
  "phase GameState_init = PLAYING \<and>
   check_victory GameState_init = None \<and>
   length (players GameState_init) = 2 \<and>
   current_player_index GameState_init < 2 \<and>
   length (get_unplaced_pawns (players GameState_init ! 0)) = 7 \<and>
   length (get_unplaced_pawns (players GameState_init ! 1)) = 7 \<and>
   stalemate (snd (switch_turn GameState_init)) \<and>
   phase (snd (switch_turn GameState_init)) = GAME_OVER \<and>
   winner (snd (switch_turn GameState_init)) = None \<and>
   stalemate (snd (switch_turn (reset_game placed_twice))) \<and>
   phase (snd (switch_turn (reset_game placed_twice))) = GAME_OVER \<and>
   winner (snd (switch_turn (reset_game placed_twice))) = None"
  using switch_turn_on_empty_board_is_stalemate [of GameState_init] new_game_fields
        new_game_pawns
        switch_turn_on_empty_board_is_stalemate [of "reset_game placed_twice"]
        reset_placed_twice_facts reset_game_nobody_on_board [of placed_twice]
  by simp

section \<open>Moving onto an escape cell\<close>

text \<open>
  C1, as the code has it. In a game that is being played, let a pawn of the player to
  move stand on a cell that the board records for it, and let an escape cell of its
  owner be a legal destination (the forward neighbour, empty). Then \<^verbatim>\<open>move_pawn\<close> of
  the pawn to that cell returns \<^verbatim>\<open>True\<close> and leaves the pawn on the board, standing on
  the escape cell, not escaped, and the cell occupied by it.
  \<^verbatim>\<open>GameState.move_pawn\<close> does not go through \<^verbatim>\<open>Pawn.move_to\<close>; leaving the board is
  the separate action \<^verbatim>\<open>escape_pawn\<close>, taken on a later turn.
\<close>

theorem move_onto_escape_cell_keeps_pawn_on_board:
  assumes "phase s = PLAYING"
    and "fst r = current_player_index s"
    and "fst r < length (players s)"
    and "snd r < length (pawns (players s ! fst r))"
    and "to \<in> set (get_valid_moves (player_id (players s ! fst r)) (get_pawn s r) (board s))"
    and "is_escape_position (board s) to (player_id (players s ! fst r))"
    and "position (get_pawn s r) = Some frm"
    and "intersections (board s) frm = Some r"
  shows "fst (move_pawn s r to) \<and>
         position (get_pawn (snd (move_pawn s r to)) r) = Some to \<and>
         is_on_board (get_pawn (snd (move_pawn s r to)) r) \<and>
         \<not> is_escaped (get_pawn (snd (move_pawn s r to)) r) \<and>
         get_pawn_at_intersection (board (snd (move_pawn s r to))) to = Some r \<and>
         \<not> is_intersection_empty (board (snd (move_pawn s r to))) to"
  using assms(1-5,7,8) by (rule move_pawn_effect)

theorem move_onto_escape_cell_keeps_pawn_on_board_witness:
  "phase near_escape = PLAYING \<and>
   is_escape_position (board near_escape) (3, 0) 1 \<and>
   is_intersection_empty (board near_escape) (3, 0) \<and>
   fst (move_pawn near_escape (0, 0) (3, 0)) \<and>
   position (get_pawn (snd (move_pawn near_escape (0, 0) (3, 0))) (0, 0)) = Some (3, 0) \<and>
   is_on_board (get_pawn (snd (move_pawn near_escape (0, 0) (3, 0))) (0, 0)) \<and>
   get_pawn_at_intersection (board (snd (move_pawn near_escape (0, 0) (3, 0)))) (3, 0)
     = Some (0, 0)"
proof -
  have "is_escape_position (board near_escape) (3, 0) 1"
    by (simp add: near_escape_def fixture_defs is_escape_position_def is_valid_position_def)
  then show ?thesis
    using move_onto_escape_cell_keeps_pawn_on_board
            [OF near_escape_facts(1-4) near_escape_cells(1,2) near_escape_facts(5,6)]
          near_escape_facts(1) near_escape_cells(3)
    by simp
qed

text \<open>
  The claim as the specification words it fails for player 1's pawn on \<open>(3, 1)\<close>: the
  move to the empty escape cell \<open>(3, 0)\<close> is accepted, and afterwards the pawn is not
  escaped and the cell is not empty.
\<close>

theorem move_onto_escape_cell_counterexample:
  "phase near_escape = PLAYING \<and>
   current_player_index near_escape = 0 \<and>
   position (get_pawn near_escape (0, 0)) = Some (3, 1) \<and>
   is_escape_position (board near_escape) (3, 0) 1 \<and>
   is_intersection_empty (board near_escape) (3, 0) \<and>
   fst (move_pawn near_escape (0, 0) (3, 0)) \<and>
   \<not> is_escaped (get_pawn (snd (move_pawn near_escape (0, 0) (3, 0))) (0, 0)) \<and>
   \<not> is_intersection_empty (board (snd (move_pawn near_escape (0, 0) (3, 0)))) (3, 0)"
proof -
  have "is_escape_position (board near_escape) (3, 0) 1"
    by (simp add: near_escape_def fixture_defs is_escape_position_def is_valid_position_def)
  moreover have "current_player_index near_escape = 0"
    by (simp add: near_escape_def fixture_defs)
  ultimately show ?thesis
    using move_pawn_effect
            [OF near_escape_facts(1-4) near_escape_cells(1) near_escape_facts(5,6)]
          near_escape_facts(1,5) near_escape_cells(3)
    by simp
qed

section \<open>Victory\<close>

text \<open>
  C8, as the code has it. In a game that is being played in which some player has all
  seven pawns escaped, \<^verbatim>\<open>check_victory\<close> returns the first such player of the list
  (it is a function of the state and changes nothing), and the next \<^verbatim>\<open>switch_turn\<close>
  records that player as winner and ends the game without moving the turn index. A
  successful \<^verbatim>\<open>move_pawn\<close>, and a successful \<^verbatim>\<open>place_pawn\<close> of a pawn that is not
  escaped, move the turn index to the next player and then record that same player as
  winner and end the game. A successful \<^verbatim>\<open>escape_pawn\<close> moves the turn index, ends the
  game and records the first player of the list who has all seven pawns escaped after
  the escape: the same player, unless the escape completes the roster of a player
  earlier in the list. The pawns acted on belong to a roster of seven.
\<close>

theorem victory_committed_by_switch_turn_or_action:
  assumes "phase s = PLAYING" and "i < length (players s)" and "has_won (players s ! i)"
  shows "\<exists>w. check_victory s = Some w \<and> w \<le> i \<and> has_won (players s ! w) \<and>
             (\<forall>j<w. \<not> has_won (players s ! j)) \<and>
             winner (snd (switch_turn s)) = Some w \<and>
             phase (snd (switch_turn s)) = GAME_OVER \<and>
             current_player_index (snd (switch_turn s)) = current_player_index s \<and>
             (fst (move_pawn s r to) \<and> fst r < length (players s) \<and> snd r < 7 \<and>
              length (pawns (players s ! fst r)) = 7 \<longrightarrow>
                winner (snd (move_pawn s r to)) = Some w \<and>
                phase (snd (move_pawn s r to)) = GAME_OVER \<and>
                current_player_index (snd (move_pawn s r to)) =
                  (current_player_index s + 1) mod length (players s)) \<and>
             (fst (place_pawn s r p) \<and> fst r < length (players s) \<and> snd r < 7 \<and>
              length (pawns (players s ! fst r)) = 7 \<and> \<not> is_escaped (get_pawn s r) \<longrightarrow>
                winner (snd (place_pawn s r p)) = Some w \<and>
                phase (snd (place_pawn s r p)) = GAME_OVER \<and>
                current_player_index (snd (place_pawn s r p)) =
                  (current_player_index s + 1) mod length (players s)) \<and>
             (fst (escape_pawn s r) \<and> fst r < length (players s) \<and> snd r < 7 \<and>
              length (pawns (players s ! fst r)) = 7 \<and> \<not> is_escaped (get_pawn s r) \<longrightarrow>
                winner (snd (escape_pawn s r)) =
                  Some (if fst r < w \<and> has_won (players (snd (escape_pawn s r)) ! fst r)
                        then fst r else w) \<and>
                phase (snd (escape_pawn s r)) = GAME_OVER \<and>
                current_player_index (snd (escape_pawn s r)) =
                  (current_player_index s + 1) mod length (players s))"
proof -
  from first_won_exists [OF assms(2,3), of 0] obtain w where
    w: "check_victory s = Some w" "w \<le> i"
    by (auto simp add: check_victory_def)
  have first: "has_won (players s ! w) \<and> (\<forall>j<w. \<not> has_won (players s ! j))"
    using first_won_Some [of 0 "players s" w] w(1) by (simp add: check_victory_def)
  have sw: "winner (snd (switch_turn s)) = Some w \<and>
            phase (snd (switch_turn s)) = GAME_OVER \<and>
            current_player_index (snd (switch_turn s)) = current_player_index s"
    by (simp add: switch_turn_victory [OF assms(1) w(1)])
  have mv: "fst (move_pawn s r to) \<and> fst r < length (players s) \<and> snd r < 7 \<and>
              length (pawns (players s ! fst r)) = 7 \<longrightarrow>
                winner (snd (move_pawn s r to)) = Some w \<and>
                phase (snd (move_pawn s r to)) = GAME_OVER \<and>
                current_player_index (snd (move_pawn s r to)) =
                  (current_player_index s + 1) mod length (players s)"
    using move_pawn_victory [OF w(1), of r to] by blast
  have pl: "fst (place_pawn s r p) \<and> fst r < length (players s) \<and> snd r < 7 \<and>
              length (pawns (players s ! fst r)) = 7 \<and> \<not> is_escaped (get_pawn s r) \<longrightarrow>
                winner (snd (place_pawn s r p)) = Some w \<and>
                phase (snd (place_pawn s r p)) = GAME_OVER \<and>
                current_player_index (snd (place_pawn s r p)) =
                  (current_player_index s + 1) mod length (players s)"
    using place_pawn_victory [OF w(1), of r p] by blast
  have es: "fst (escape_pawn s r) \<and> fst r < length (players s) \<and> snd r < 7 \<and>
              length (pawns (players s ! fst r)) = 7 \<and> \<not> is_escaped (get_pawn s r) \<longrightarrow>
                winner (snd (escape_pawn s r)) =
                  Some (if fst r < w \<and> has_won (players (snd (escape_pawn s r)) ! fst r)
                        then fst r else w) \<and>
                phase (snd (escape_pawn s r)) = GAME_OVER \<and>
                current_player_index (snd (escape_pawn s r)) =
                  (current_player_index s + 1) mod length (players s)"
    using escape_pawn_victory [OF w(1), of r] by blast
  show ?thesis
    using w first sw mv pl es by blast
qed

theorem victory_committed_by_switch_turn_or_action_witness:
  "phase player1_done_player2_moves = PLAYING \<and>
   has_won (players player1_done_player2_moves ! 0) \<and>
   check_victory player1_done_player2_moves = Some 0 \<and>
   winner (snd (switch_turn player1_done_player2_moves)) = Some 0 \<and>
   phase (snd (switch_turn player1_done_player2_moves)) = GAME_OVER \<and>
   current_player_index (snd (switch_turn player1_done_player2_moves)) = 1 \<and>
   fst (move_pawn player1_done_player2_moves (1, 0) (4, 3)) \<and>
   winner (snd (move_pawn player1_done_player2_moves (1, 0) (4, 3))) = Some 0 \<and>
   phase (snd (move_pawn player1_done_player2_moves (1, 0) (4, 3))) = GAME_OVER \<and>
   fst (place_pawn player1_done_player2_moves (1, 1) (6, 1)) \<and>
   winner (snd (place_pawn player1_done_player2_moves (1, 1) (6, 1))) = Some 0 \<and>
   phase (snd (place_pawn player1_done_player2_moves (1, 1) (6, 1))) = GAME_OVER \<and>
   phase player2_done_player1_last = PLAYING \<and>
   check_victory player2_done_player1_last = Some 1 \<and>
   fst (escape_pawn player2_done_player1_last (0, 6)) \<and>
   winner (snd (escape_pawn player2_done_player1_last (0, 6))) = Some 0 \<and>
   phase (snd (escape_pawn player2_done_player1_last (0, 6))) = GAME_OVER"
proof -
  have a: "winner (snd (switch_turn player1_done_player2_moves)) = Some 0 \<and>
      phase (snd (switch_turn player1_done_player2_moves)) = GAME_OVER \<and>
      current_player_index (snd (switch_turn player1_done_player2_moves)) = 1 \<and>
      winner (snd (move_pawn player1_done_player2_moves (1, 0) (4, 3))) = Some 0 \<and>
      phase (snd (move_pawn player1_done_player2_moves (1, 0) (4, 3))) = GAME_OVER"
    using victory_committed_by_switch_turn_or_action
            [OF player1_done_player2_moves_facts(1,2,3), of "(1, 0)" "(4, 3)"]
          player1_done_player2_moves_facts player1_done_player2_moves_accepted
    by auto
  have b: "winner (snd (place_pawn player1_done_player2_moves (1, 1) (6, 1))) = Some 0 \<and>
      phase (snd (place_pawn player1_done_player2_moves (1, 1) (6, 1))) = GAME_OVER"
    using victory_committed_by_switch_turn_or_action
            [OF player1_done_player2_moves_facts(1,2,3), of "(1, 1)" _ "(6, 1)"]
          player1_done_player2_moves_facts(4) player1_done_player2_places
    by auto
  have c: "phase (snd (escape_pawn player2_done_player1_last (0, 6))) = GAME_OVER"
    using victory_committed_by_switch_turn_or_action
            [OF player2_done_player1_last_facts(1) player2_done_player1_last_pawn(1)
                player2_done_player1_last_facts(2), of "(0, 6)"]
          player2_done_player1_last_pawn player2_done_player1_last_escapes(1)
    by auto
  show ?thesis
    using a b c player1_done_player2_moves_facts(1,3,4) player1_done_player2_moves_accepted
          player1_done_player2_places(5) player2_done_player1_last_facts(1,4)
          player2_done_player1_last_escapes(1,2)
    by simp
qed

text \<open>
  The claim as the specification words it, for any next successful action, fails when
  player 2 has all seven pawns escaped and player 1, to move, escapes its seventh pawn:
  \<^verbatim>\<open>escape_pawn\<close> records player 1, the first of the list, as winner, not player 2.
\<close>

theorem victory_by_next_action_counterexample:
  "phase player2_done_player1_last = PLAYING \<and>
   current_player_index player2_done_player1_last = 0 \<and>
   has_won (players player2_done_player1_last ! 1) \<and>
   \<not> has_won (players player2_done_player1_last ! 0) \<and>
   check_victory player2_done_player1_last = Some 1 \<and>
   is_on_board (get_pawn player2_done_player1_last (0, 6)) \<and>
   fst (escape_pawn player2_done_player1_last (0, 6)) \<and>
   winner (snd (escape_pawn player2_done_player1_last (0, 6))) = Some 0 \<and>
   phase (snd (escape_pawn player2_done_player1_last (0, 6))) = GAME_OVER"
  using player2_done_player1_last_facts player2_done_player1_last_escapes
        player2_done_player1_last_pawn(6,7)
  by simp

end
